theory Spec2Isabelle
  imports
    Main
    "HOL-Library.Char_ord"
    "HOL-Library.List_Lexorder"
    "HOL-Library.Multiset"
begin

section \<open>Data model\<close>

text \<open>
  The status type is \<^verbatim>\<open>keyof typeof STATUS_CONFIG\<close>: a closed union of eleven string
  literals (kanban-board.tsx lines 19-33, and the same table in the jobs table component).
\<close>

datatype JobStatus =
    APPLYING
  | APPLIED
  | FOR_INTERVIEW
  | INTERVIEWING
  | OFFER
  | NEGOTIATING
  | HIRED
  | ON_HOLD
  | REJECTED
  | NO_RESPONSE
  | WITHDRAW

text \<open>
  \<^verbatim>\<open>interface Job\<close>. The field \<^verbatim>\<open>id\<close> is called \<open>job_id\<close> here because \<open>id\<close> is the
  identity function of HOL. An optional field (\<^verbatim>\<open>string | null | undefined\<close>) is an
  \<open>option\<close>. A \<^verbatim>\<open>Date\<close> is represented by its time value, the number of milliseconds
  since the epoch that \<^verbatim>\<open>getTime()\<close> returns; a \<^verbatim>\<open>Date\<close> without a time value (an invalid
  date) is not represented.
\<close>

record Job =
  job_id :: string
  company :: string
  position :: string
  status :: JobStatus
  url :: "string option"
  salary :: "string option"
  "note" :: "string option"
  createdAt :: int

datatype SortField = Company | Position | Status | CreatedAt

datatype SortDirection = Asc | Desc

section \<open>Table view: sort state\<close>

text \<open>
  The two \<^verbatim>\<open>useState\<close> cells of \<^verbatim>\<open>JobsTable\<close>, and \<^verbatim>\<open>handleSort\<close>, which reads both
  cells of the current render and writes them.
\<close>

record SortState =
  sortField :: SortField
  sortDirection :: SortDirection

definition initialSortState :: SortState where
  "initialSortState = \<lparr>sortField = CreatedAt, sortDirection = Desc\<rparr>"

definition handleSort :: "SortField \<Rightarrow> SortState \<Rightarrow> SortState" where
  "handleSort field st =
     (if sortField st = field
      then st\<lparr>sortDirection := (if sortDirection st = Asc then Desc else Asc)\<rparr>
      else st\<lparr>sortField := field, sortDirection := Asc\<rparr>)"

section \<open>Table view: the sort\<close>

text \<open>
  A string is the list of its UTF-16 code units, and a \<open>char\<close> is one code unit below 256:
  the model covers the strings of Basic Latin and Latin-1 characters (code points 0 to 255),
  for which a code unit is a code point. Strings are compared as JavaScript compares them:
  by code unit, lexicographically, a proper prefix first.

  On these strings \<^verbatim>\<open>String.prototype.toLowerCase\<close> works character by character: the
  upper-case letters are A to Z (65-90), \<^verbatim>\<open>U+00C0\<close> to \<^verbatim>\<open>U+00D6\<close> (192-214) and \<^verbatim>\<open>U+00D8\<close> to
  \<^verbatim>\<open>U+00DE\<close> (216-222); each becomes the character 32 code points later, and every other
  character is left as it is. Bit 5 of an upper-case letter is clear, so adding 32 sets it.
\<close>

definition isUpperCase :: "char \<Rightarrow> bool" where
  "isUpperCase c =
     ((65 \<le> (of_char c :: nat) \<and> (of_char c :: nat) \<le> 90)
      \<or> (192 \<le> (of_char c :: nat) \<and> (of_char c :: nat) \<le> 214)
      \<or> (216 \<le> (of_char c :: nat) \<and> (of_char c :: nat) \<le> 222))"

fun toLowerCase_char :: "char \<Rightarrow> char" where
  "toLowerCase_char (Char b0 b1 b2 b3 b4 b5 b6 b7) =
     (if isUpperCase (Char b0 b1 b2 b3 b4 b5 b6 b7)
      then Char b0 b1 b2 b3 b4 True b6 b7
      else Char b0 b1 b2 b3 b4 b5 b6 b7)"

definition toLowerCase :: "string \<Rightarrow> string" where
  "toLowerCase s = map toLowerCase_char s"



text \<open>\<^verbatim>\<open>String(aValue)\<close> of a status: the literal itself.\<close>

fun statusName :: "JobStatus \<Rightarrow> string" where
  "statusName APPLYING = ''APPLYING''"
| "statusName APPLIED = ''APPLIED''"
| "statusName FOR_INTERVIEW = ''FOR_INTERVIEW''"
| "statusName INTERVIEWING = ''INTERVIEWING''"
| "statusName OFFER = ''OFFER''"
| "statusName NEGOTIATING = ''NEGOTIATING''"
| "statusName HIRED = ''HIRED''"
| "statusName ON_HOLD = ''ON_HOLD''"
| "statusName REJECTED = ''REJECTED''"
| "statusName NO_RESPONSE = ''NO_RESPONSE''"
| "statusName WITHDRAW = ''WITHDRAW''"

text \<open>
  Lines 103-105 of the comparator, on two values already made comparable (two numbers or
  two lower-cased strings).
\<close>

definition compareValues :: "SortDirection \<Rightarrow> 'a::linorder \<Rightarrow> 'a \<Rightarrow> int" where
  "compareValues dir aValue bValue =
     (if aValue < bValue then (if dir = Asc then - 1 else 1)
      else if aValue > bValue then (if dir = Asc then 1 else - 1)
      else 0)"

text \<open>
  Lines 91-92 and 99-100, for a field that holds a string: the only falsy string is the
  empty one.
\<close>

definition compareStrings :: "SortDirection \<Rightarrow> string \<Rightarrow> string \<Rightarrow> int" where
  "compareStrings dir aValue bValue =
     (if aValue = [] then 1
      else if bValue = [] then - 1
      else compareValues dir (toLowerCase aValue) (toLowerCase bValue))"

text \<open>
  The comparator passed to \<^verbatim>\<open>sort\<close> (lines 86-106), by the field it reads. A \<^verbatim>\<open>Date\<close>
  object is never falsy, so for \<^verbatim>\<open>createdAt\<close> lines 91-92 fall through and the two time
  values are compared.
\<close>

fun compareJobs :: "SortField \<Rightarrow> SortDirection \<Rightarrow> Job \<Rightarrow> Job \<Rightarrow> int" where
  "compareJobs Company dir a b = compareStrings dir (company a) (company b)"
| "compareJobs Position dir a b = compareStrings dir (position a) (position b)"
| "compareJobs Status dir a b =
     compareStrings dir (statusName (status a)) (statusName (status b))"
| "compareJobs CreatedAt dir a b = compareValues dir (createdAt a) (createdAt b)"

text \<open>
  \<^verbatim>\<open>Array.prototype.sort\<close> belongs to the runtime. ECMAScript requires it to be stable; it
  is modelled as the stable insertion sort in which a later element \<open>y\<close> moves in front of
  an earlier element \<open>x\<close> exactly when \<^verbatim>\<open>comparefn(y, x) < 0\<close>. This is the only question the
  sort of V8 asks of the comparator. For the comparator above the question is a strict weak
  order (lemmas \<open>compareJobs_asym\<close> and \<open>compareJobs_trans\<close> below), and the list that is
  sorted and stable for it is unique (lemma \<open>sortedJobs_unique\<close>). The source sorts a copy
  (\<^verbatim>\<open>[...jobs]\<close>), so the input list is not changed.
\<close>

fun insertSorted :: "('a \<Rightarrow> 'a \<Rightarrow> int) \<Rightarrow> 'a \<Rightarrow> 'a list \<Rightarrow> 'a list" where
  "insertSorted comparefn x [] = [x]"
| "insertSorted comparefn x (y # ys) =
     (if comparefn y x < 0 then y # insertSorted comparefn x ys else x # y # ys)"

fun arraySort :: "('a \<Rightarrow> 'a \<Rightarrow> int) \<Rightarrow> 'a list \<Rightarrow> 'a list" where
  "arraySort comparefn [] = []"
| "arraySort comparefn (x # xs) = insertSorted comparefn x (arraySort comparefn xs)"

definition sortedJobs :: "SortField \<Rightarrow> SortDirection \<Rightarrow> Job list \<Rightarrow> Job list" where
  "sortedJobs field dir jobs = arraySort (compareJobs field dir) jobs"

text \<open>The value the comparator tests for falsiness: \<^verbatim>\<open>!a[sortField]\<close>.\<close>

fun missing :: "SortField \<Rightarrow> Job \<Rightarrow> bool" where
  "missing Company a = (company a = [])"
| "missing Position a = (position a = [])"
| "missing Status a = (statusName (status a) = [])"
| "missing CreatedAt a = False"

text \<open>\<^verbatim>\<open>a[sortField]\<close> when the field holds a string.\<close>

fun stringOf :: "SortField \<Rightarrow> Job \<Rightarrow> string option" where
  "stringOf Company a = Some (company a)"
| "stringOf Position a = Some (position a)"
| "stringOf Status a = Some (statusName (status a))"
| "stringOf CreatedAt a = None"

text \<open>
  Two notions used to state properties of the sort. A sequence is already sorted when the
  comparator puts no record strictly before a record that precedes it. Two records are
  tied when the comparator puts neither strictly before the other.
\<close>

definition alreadySorted :: "SortField \<Rightarrow> SortDirection \<Rightarrow> Job list \<Rightarrow> bool" where
  "alreadySorted field dir jobs = sorted_wrt (\<lambda>a b. \<not> compareJobs field dir b a < 0) jobs"

definition tied :: "SortField \<Rightarrow> SortDirection \<Rightarrow> Job \<Rightarrow> Job \<Rightarrow> bool" where
  "tied field dir a b =
     (\<not> compareJobs field dir a b < 0 \<and> \<not> compareJobs field dir b a < 0)"

section \<open>Kanban board: grouping\<close>

text \<open>\<^verbatim>\<open>Object.keys(STATUS_CONFIG)\<close>: the columns, in the order the object literal lists them.\<close>

definition columns :: "JobStatus list" where
  "columns = [APPLYING, APPLIED, FOR_INTERVIEW, INTERVIEWING, OFFER, NEGOTIATING, HIRED,
              ON_HOLD, REJECTED, NO_RESPONSE, WITHDRAW]"

text \<open>
  \<^verbatim>\<open>Record<JobStatus, Job[]>\<close> is an object: a finite map from keys to arrays. Reading a key
  that is absent gives \<^verbatim>\<open>undefined\<close>, and \<^verbatim>\<open>undefined.push\<close> throws a TypeError.
\<close>

datatype error = TypeError

type_synonym grouped = "JobStatus \<rightharpoonup> Job list"

definition emptyGrouped :: grouped where
  "emptyGrouped =
     [APPLYING \<mapsto> [], APPLIED \<mapsto> [], FOR_INTERVIEW \<mapsto> [], INTERVIEWING \<mapsto> [], OFFER \<mapsto> [],
      NEGOTIATING \<mapsto> [], HIRED \<mapsto> [], ON_HOLD \<mapsto> [], REJECTED \<mapsto> [], NO_RESPONSE \<mapsto> [],
      WITHDRAW \<mapsto> []]"

definition push :: "Job \<Rightarrow> grouped \<Rightarrow> error + grouped" where
  "push job grouped =
     (case grouped (status job) of
        None \<Rightarrow> Inl TypeError
      | Some bucket \<Rightarrow> Inr (grouped(status job \<mapsto> bucket @ [job])))"

fun forEach_push :: "Job list \<Rightarrow> grouped \<Rightarrow> error + grouped" where
  "forEach_push [] grouped = Inr grouped"
| "forEach_push (job # jobs) grouped =
     (case push job grouped of
        Inl e \<Rightarrow> Inl e
      | Inr grouped' \<Rightarrow> forEach_push jobs grouped')"

definition jobsByStatus :: "Job list \<Rightarrow> error + grouped" where
  "jobsByStatus jobs = forEach_push jobs emptyGrouped"

text \<open>\<^verbatim>\<open>jobsByStatus[status]\<close>, the array handed to a column.\<close>

definition bucket :: "grouped \<Rightarrow> JobStatus \<Rightarrow> Job list" where
  "bucket grouped s = (case grouped s of None \<Rightarrow> [] | Some js \<Rightarrow> js)"

section \<open>Dashboard page: status change\<close>

text \<open>
  \<^verbatim>\<open>{ ...job, status: newStatus }\<close>: a copy of the record with one field replaced. The
  specification calls it \<^verbatim>\<open>changeStatus\<close>. The page types \<^verbatim>\<open>newStatus\<close> as a string and casts
  it; its callers, the menus of the board and of the table, pass a key of
  \<^verbatim>\<open>STATUS_CONFIG\<close>.
\<close>

definition changeStatus :: "'a Job_scheme \<Rightarrow> JobStatus \<Rightarrow> 'a Job_scheme" where
  "changeStatus job newStatus = job\<lparr>status := newStatus\<rparr>"

definition handleStatusChange :: "string \<Rightarrow> JobStatus \<Rightarrow> Job list \<Rightarrow> Job list" where
  "handleStatusChange jobId newStatus prevJobs =
     map (\<lambda>job. if job_id job = jobId then changeStatus job newStatus else job) prevJobs"

text \<open>
  The menu of a card (\<^verbatim>\<open>JobCard\<close>, lines 184-194): one item per key of
  \<^verbatim>\<open>STATUS_CONFIG\<close>, each calling \<^verbatim>\<open>onStatusChange(job.id, status)\<close>.
\<close>

definition menuItems :: "Job \<Rightarrow> (string \<times> JobStatus) list" where
  "menuItems job = map (\<lambda>s. (job_id job, s)) columns"

text \<open>The records the page starts from; the dates are UTC midnights, in milliseconds.\<close>

definition MOCK_JOBS :: "Job list" where
  "MOCK_JOBS =
     [\<lparr>job_id = ''1'', company = ''Google'', position = ''Senior Software Engineer'',
       status = INTERVIEWING, url = None, salary = Some ''$150k - $200k'',
       note = Some ''Phone screen scheduled for next week'', createdAt = 1705276800000\<rparr>,
      \<lparr>job_id = ''2'', company = ''Meta'', position = ''Frontend Developer'',
       status = APPLIED, url = None, salary = Some ''$140k - $180k'',
       note = None, createdAt = 1705708800000\<rparr>,
      \<lparr>job_id = ''3'', company = ''Amazon'', position = ''Full Stack Engineer'',
       status = FOR_INTERVIEW, url = None, salary = Some ''$130k - $170k'',
       note = Some ''Recruiter reached out'', createdAt = 1705536000000\<rparr>,
      \<lparr>job_id = ''4'', company = ''Netflix'', position = ''Software Engineer'',
       status = OFFER, url = None, salary = Some ''$160k - $210k'',
       note = Some ''Offer received! Negotiating'', createdAt = 1704844800000\<rparr>,
      \<lparr>job_id = ''5'', company = ''Apple'', position = ''iOS Developer'',
       status = REJECTED, url = None, salary = Some ''$145k - $185k'',
       note = Some ''Not a good fit'', createdAt = 1704412800000\<rparr>]"

section \<open>Mutation layer\<close>

text \<open>
  A row of the table \<^verbatim>\<open>jobs\<close> of schema.ts: the columns of a \<open>Job\<close>, the owner
  (\<^verbatim>\<open>user_id\<close>, not null) and the job description.
\<close>

record JobRow = Job +
  userId :: string
  jobDescription :: "string option"

text \<open>
  Modelled from the spec: the \<^verbatim>\<open>optionalFields\<close> argument of \<^verbatim>\<open>createJob\<close>, one entry per
  nullable column of the table.
\<close>

record OptionalFields =
  opt_url :: "string option"
  opt_salary :: "string option"
  opt_jobDescription :: "string option"
  opt_note :: "string option"

text \<open>
  Modelled from the spec: the error kinds of section 7 that the two mutations raise.
\<close>

datatype mutationError = ValidationError | NotFound

text \<open>
  Modelled from the spec: \<^verbatim>\<open>createJob\<close> of section 4.4; the source has no mutation that
  creates a job (the page's \<^verbatim>\<open>handleAddJob\<close> only logs). The identifier and the time come
  from the store (\<^verbatim>\<open>defaultRandom()\<close>, \<^verbatim>\<open>defaultNow()\<close> in schema.ts), and so does the default
  status \<^verbatim>\<open>APPLYING\<close>. The result is the persisted row and the store with the row added.
\<close>

definition createJob ::
  "string \<Rightarrow> int \<Rightarrow> JobRow list \<Rightarrow> string \<Rightarrow> string \<Rightarrow> string \<Rightarrow> OptionalFields
     \<Rightarrow> mutationError + (JobRow \<times> JobRow list)" where
  "createJob newId now store ownerId companyName positionTitle opt =
     (if companyName = [] \<or> positionTitle = [] then Inl ValidationError
      else
        (let row = \<lparr>job_id = newId, company = companyName, position = positionTitle,
                    status = APPLYING, url = opt_url opt, salary = opt_salary opt,
                    note = opt_note opt, createdAt = now, userId = ownerId,
                    jobDescription = opt_jobDescription opt\<rparr>
         in Inr (row, store @ [row])))"

text \<open>
  Modelled from the spec: "a record with that identifier owned by the requester"
  (section 4.4), on rows of the table.
\<close>

definition ownedRecord :: "string \<Rightarrow> string \<Rightarrow> JobRow \<Rightarrow> bool" where
  "ownedRecord recordId requesterId row = (job_id row = recordId \<and> userId row = requesterId)"

text \<open>
  Modelled from the spec: \<^verbatim>\<open>updateStatus\<close> of section 4.4; the source has no store-backed
  mutation (\<^verbatim>\<open>handleStatusChange\<close> of the page updates the displayed list only). The
  result is the updated row and the store after the update.
\<close>

definition updateStatus ::
  "string \<Rightarrow> JobStatus \<Rightarrow> string \<Rightarrow> JobRow list
     \<Rightarrow> mutationError + (JobRow \<times> JobRow list)" where
  "updateStatus recordId newStatus requesterId store =
     (case find (ownedRecord recordId requesterId) store of
        None \<Rightarrow> Inl NotFound
      | Some row \<Rightarrow>
          Inr (changeStatus row newStatus,
               map (\<lambda>r. if ownedRecord recordId requesterId r then changeStatus r newStatus
                        else r) store))"

text \<open>A stored row, for examples.\<close>

definition storedJob :: JobRow where
  "storedJob =
     \<lparr>job_id = ''1'', company = ''Acme'', position = ''Engineer'', status = APPLIED,
      url = None, salary = None, note = None, createdAt = 1705276800000,
      userId = ''owner'', jobDescription = None\<rparr>"

section \<open>Sort state: toggling\<close>

text \<open>
  Claim C8. From any sort state: a click on the selected field keeps the field and flips the
  direction; a click on another field selects it with direction ascending; two clicks on
  the selected field give back the state they started from.
\<close>

theorem handleSort_toggle:
  "sortField (handleSort (sortField st) st) = sortField st
   \<and> sortDirection (handleSort (sortField st) st)
       = (case sortDirection st of Asc \<Rightarrow> Desc | Desc \<Rightarrow> Asc)
   \<and> (field \<noteq> sortField st \<longrightarrow>
        sortField (handleSort field st) = field
        \<and> sortDirection (handleSort field st) = Asc)
   \<and> handleSort (sortField st) (handleSort (sortField st) st) = st"
proof -
  have flip: "sortDirection (handleSort (sortField st) st)
                = (case sortDirection st of Asc \<Rightarrow> Desc | Desc \<Rightarrow> Asc)"
    by (cases "sortDirection st") (simp_all add: handleSort_def)
  have keep: "sortField (handleSort (sortField st) st) = sortField st"
    by (simp add: handleSort_def)
  have other: "field \<noteq> sortField st \<longrightarrow>
        sortField (handleSort field st) = field
        \<and> sortDirection (handleSort field st) = Asc"
    by (auto simp: handleSort_def)
  have twice: "handleSort (sortField st) (handleSort (sortField st) st) = st"
    by (cases "sortDirection st") (simp_all add: handleSort_def)
  from keep flip other twice show ?thesis by blast
qed

theorem handleSort_toggle_witness:
  "Company \<noteq> sortField initialSortState
   \<and> sortField (handleSort Company initialSortState) = Company
   \<and> sortDirection (handleSort Company initialSortState) = Asc
   \<and> sortDirection (handleSort CreatedAt initialSortState) = Asc
   \<and> handleSort CreatedAt (handleSort CreatedAt initialSortState) = initialSortState"
proof -
  have h: "Company \<noteq> sortField initialSortState
           \<and> sortField initialSortState = CreatedAt
           \<and> sortDirection initialSortState = Desc"
    by (simp add: initialSortState_def)
  with handleSort_toggle [of initialSortState Company] show ?thesis by simp
qed

section \<open>The insertion sort, for any comparator\<close>

lemma arraySort_sorted_id:
  "sorted_wrt (\<lambda>a b. \<not> comparefn b a < 0) xs \<Longrightarrow> arraySort comparefn xs = xs"
proof (induction xs)
  case Nil
  then show ?case by simp
next
  case (Cons x xs)
  then have "arraySort comparefn xs = xs" by simp
  moreover have "insertSorted comparefn x xs = x # xs"
    using Cons.prems by (cases xs) simp_all
  ultimately show ?case by simp
qed

lemma set_insertSorted: "set (insertSorted comparefn x ys) = insert x (set ys)"
  by (induction ys) auto

lemma set_arraySort: "set (arraySort comparefn xs) = set xs"
  by (induction xs) (simp_all add: set_insertSorted)

lemma mset_insertSorted: "mset (insertSorted comparefn x ys) = add_mset x (mset ys)"
  by (induction ys) auto

lemma mset_arraySort: "mset (arraySort comparefn xs) = mset xs"
  by (induction xs) (auto simp: mset_insertSorted)

text \<open>
  The test \<open>comparefn y x < 0\<close> orders the output when it is asymmetric and its negation
  is transitive.
\<close>

lemma sorted_insertSorted:
  assumes asym: "\<And>a b. comparefn a b < 0 \<Longrightarrow> \<not> comparefn b a < 0"
    and trans: "\<And>a b c. \<not> comparefn b a < 0 \<Longrightarrow> \<not> comparefn c b < 0 \<Longrightarrow> \<not> comparefn c a < 0"
    and ys: "sorted_wrt (\<lambda>a b. \<not> comparefn b a < 0) ys"
  shows "sorted_wrt (\<lambda>a b. \<not> comparefn b a < 0) (insertSorted comparefn x ys)"
  using ys
proof (induction ys)
  case Nil
  then show ?case by simp
next
  case (Cons y ys)
  show ?case
  proof (cases "comparefn y x < 0")
    case True
    then have "\<not> comparefn x y < 0" by (rule asym)
    with True Cons show ?thesis by (auto simp: set_insertSorted)
  next
    case False
    have "\<forall>z\<in>set ys. \<not> comparefn z x < 0"
    proof
      fix z assume "z \<in> set ys"
      with Cons.prems have "\<not> comparefn z y < 0" by simp
      with False show "\<not> comparefn z x < 0" by (rule trans)
    qed
    with False Cons.prems show ?thesis by simp
  qed
qed

lemma sorted_arraySort:
  assumes asym: "\<And>a b. comparefn a b < 0 \<Longrightarrow> \<not> comparefn b a < 0"
    and trans: "\<And>a b c. \<not> comparefn b a < 0 \<Longrightarrow> \<not> comparefn c b < 0 \<Longrightarrow> \<not> comparefn c a < 0"
  shows "sorted_wrt (\<lambda>a b. \<not> comparefn b a < 0) (arraySort comparefn xs)"
proof (induction xs)
  case Nil
  then show ?case by simp
next
  case (Cons x xs)
  then show ?case using sorted_insertSorted [OF asym trans] by simp
qed

lemma filter_insertSorted:
  assumes "\<And>y. P x \<Longrightarrow> P y \<Longrightarrow> \<not> comparefn y x < 0"
  shows "filter P (insertSorted comparefn x ys)
           = (if P x then x # filter P ys else filter P ys)"
  using assms by (induction ys) auto

lemma insertSorted_stays:
  "\<forall>m\<in>set ms. \<not> comparefn m x < 0 \<Longrightarrow>
     insertSorted comparefn x (ps @ ms) = insertSorted comparefn x ps @ ms"
proof (induction ps)
  case Nil
  then show ?case by (cases ms) simp_all
next
  case (Cons p ps)
  then show ?case by simp
qed

lemma insertSorted_passes:
  "\<forall>p\<in>set ps. comparefn p x < 0 \<Longrightarrow>
     insertSorted comparefn x (ps @ ms) = ps @ insertSorted comparefn x ms"
  by (induction ps) simp_all

section \<open>The comparator of the table\<close>

lemma compareValues_asym: "compareValues dir a b < 0 \<Longrightarrow> \<not> compareValues dir b a < 0"
  by (auto simp: compareValues_def split: if_splits)

lemma compareValues_trans:
  "\<not> compareValues dir b a < 0 \<Longrightarrow> \<not> compareValues dir c b < 0
     \<Longrightarrow> \<not> compareValues dir c a < 0"
  by (cases dir) (auto simp: compareValues_def split: if_splits)

lemma compareStrings_asym: "compareStrings dir a b < 0 \<Longrightarrow> \<not> compareStrings dir b a < 0"
  using compareValues_asym [of dir "toLowerCase a" "toLowerCase b"]
  by (auto simp: compareStrings_def split: if_splits)

lemma compareStrings_trans:
  "\<not> compareStrings dir b a < 0 \<Longrightarrow> \<not> compareStrings dir c b < 0
     \<Longrightarrow> \<not> compareStrings dir c a < 0"
  using compareValues_trans [of dir "toLowerCase b" "toLowerCase a" "toLowerCase c"]
  by (auto simp: compareStrings_def split: if_splits)

lemma compareJobs_asym:
  "compareJobs field dir a b < 0 \<Longrightarrow> \<not> compareJobs field dir b a < 0"
  by (cases field) (auto dest: compareStrings_asym compareValues_asym)

lemma compareJobs_trans:
  "\<not> compareJobs field dir b a < 0 \<Longrightarrow> \<not> compareJobs field dir c b < 0
     \<Longrightarrow> \<not> compareJobs field dir c a < 0"
  by (cases field) (auto dest: compareStrings_trans compareValues_trans)

lemma compareJobs_missing_left: "missing field a \<Longrightarrow> compareJobs field dir a b = 1"
  by (cases field) (simp_all add: compareStrings_def)

lemma compareJobs_missing_right:
  "\<not> missing field a \<Longrightarrow> missing field b \<Longrightarrow> compareJobs field dir a b = - 1"
  by (cases field) (simp_all add: compareStrings_def)

text \<open>
  On two records that both lack the field the comparator answers 1 in both orders, and it
  answers 1 for such a record against itself: it is not antisymmetric there. The question
  \<open>comparefn y x < 0\<close> is not affected: it is asymmetric and its negation is transitive.
\<close>

lemma compareJobs_both_missing:
  "missing field a \<Longrightarrow> missing field b \<Longrightarrow>
     compareJobs field dir a b = 1 \<and> compareJobs field dir b a = 1"
  by (simp add: compareJobs_missing_left)

section \<open>Table view: properties of the sort\<close>

lemma sortedJobs_alreadySorted: "alreadySorted field dir (sortedJobs field dir jobs)"
  unfolding alreadySorted_def sortedJobs_def
  by (rule sorted_arraySort) (blast dest: compareJobs_asym compareJobs_trans)+

lemma sortedJobs_fixpoint:
  "alreadySorted field dir jobs \<Longrightarrow> sortedJobs field dir jobs = jobs"
  unfolding alreadySorted_def sortedJobs_def by (rule arraySort_sorted_id)

lemma tied_not_before:
  "tied field dir r x \<Longrightarrow> tied field dir r y \<Longrightarrow> \<not> compareJobs field dir y x < 0"
  unfolding tied_def using compareJobs_trans by blast

lemma sortedJobs_stable:
  "filter (tied field dir r) (sortedJobs field dir jobs) = filter (tied field dir r) jobs"
proof (induction jobs)
  case Nil
  then show ?case by (simp add: sortedJobs_def)
next
  case (Cons x xs)
  let ?rest = "arraySort (compareJobs field dir) xs"
  have "filter (tied field dir r) (insertSorted (compareJobs field dir) x ?rest)
          = (if tied field dir r x then x # filter (tied field dir r) ?rest
             else filter (tied field dir r) ?rest)"
    by (rule filter_insertSorted) (rule tied_not_before)
  with Cons show ?case by (simp add: sortedJobs_def)
qed

text \<open>
  The sort is determined by these properties: a list that holds the records of the input,
  is sorted, and keeps tied records in input order is the list \<open>sortedJobs\<close> returns.
\<close>

lemma tied_refl: "tied field dir a a"
  unfolding tied_def using compareJobs_asym by blast

lemma stable_sorted_unique:
  assumes "alreadySorted field dir ys" and "alreadySorted field dir zs"
    and "mset ys = mset zs"
    and "\<And>r. filter (tied field dir r) ys = filter (tied field dir r) zs"
  shows "ys = zs"
  using assms
proof (induction ys arbitrary: zs)
  case Nil
  then show ?case by simp
next
  case (Cons y ys)
  from Cons.prems(3) obtain z zs' where zs: "zs = z # zs'"
    by (cases zs) auto
  have yz: "y \<in> set zs" and zy: "z \<in> set (y # ys)"
    using Cons.prems(3) zs by (metis list.set_intros(1) set_mset_mset)+
  have "\<not> compareJobs field dir z y < 0"
    using Cons.prems(1) zy compareJobs_asym [of field dir y y]
    by (auto simp: alreadySorted_def)
  moreover have "\<not> compareJobs field dir y z < 0"
    using Cons.prems(2) yz zs compareJobs_asym [of field dir z z]
    by (auto simp: alreadySorted_def)
  ultimately have t: "tied field dir y z" by (simp add: tied_def)
  from Cons.prems(4) [of y] t have "y = z"
    by (simp add: zs tied_refl)
  have tails: "filter (tied field dir r) ys = filter (tied field dir r) zs'" for r
    using Cons.prems(4) [of r] \<open>y = z\<close> by (simp add: zs split: if_splits)
  have "ys = zs'"
  proof (rule Cons.IH)
    show "alreadySorted field dir ys"
      using Cons.prems(1) by (simp add: alreadySorted_def)
    show "alreadySorted field dir zs'"
      using Cons.prems(2) by (simp add: alreadySorted_def zs)
    show "mset ys = mset zs'"
      using Cons.prems(3) \<open>y = z\<close> by (simp add: zs)
    show "filter (tied field dir r) ys = filter (tied field dir r) zs'" for r
      by (rule tails)
  qed
  with \<open>y = z\<close> zs show ?case by simp
qed

lemma sortedJobs_unique:
  assumes "alreadySorted field dir ys" and "mset ys = mset jobs"
    and "\<And>r. filter (tied field dir r) ys = filter (tied field dir r) jobs"
  shows "ys = sortedJobs field dir jobs"
proof (rule stable_sorted_unique)
  show "alreadySorted field dir ys" by fact
  show "alreadySorted field dir (sortedJobs field dir jobs)"
    by (rule sortedJobs_alreadySorted)
  show "mset ys = mset (sortedJobs field dir jobs)"
    using assms(2) by (simp add: sortedJobs_def mset_arraySort)
  show "filter (tied field dir r) ys = filter (tied field dir r) (sortedJobs field dir jobs)" for r
    using assms(3) [of r] by (simp add: sortedJobs_stable)
qed

text \<open>
  Claim C3. For every list of records, sort field and direction: sorting the sorted list
  again changes nothing; a list that is already sorted is returned as it is; the result is
  sorted and holds the same records as the input; and the sort is stable: the records tied
  with any record \<open>r\<close> keep the order they have in the input.
\<close>

theorem sortedJobs_stable_idempotent:
  "sortedJobs field dir (sortedJobs field dir jobs) = sortedJobs field dir jobs
   \<and> (alreadySorted field dir jobs \<longrightarrow> sortedJobs field dir jobs = jobs)
   \<and> alreadySorted field dir (sortedJobs field dir jobs)
   \<and> mset (sortedJobs field dir jobs) = mset jobs
   \<and> filter (tied field dir r) (sortedJobs field dir jobs) = filter (tied field dir r) jobs"
proof -
  have sorted: "alreadySorted field dir (sortedJobs field dir jobs)"
    by (rule sortedJobs_alreadySorted)
  then have "sortedJobs field dir (sortedJobs field dir jobs) = sortedJobs field dir jobs"
    by (rule sortedJobs_fixpoint)
  moreover have "mset (sortedJobs field dir jobs) = mset jobs"
    by (simp add: sortedJobs_def mset_arraySort)
  ultimately show ?thesis
    using sorted sortedJobs_fixpoint sortedJobs_stable by blast
qed

theorem sortedJobs_stable_idempotent_witness:
  "alreadySorted Company Asc
     [MOCK_JOBS ! 2, MOCK_JOBS ! 4, MOCK_JOBS ! 0, MOCK_JOBS ! 1, MOCK_JOBS ! 3]
   \<and> sortedJobs Company Asc
       [MOCK_JOBS ! 2, MOCK_JOBS ! 4, MOCK_JOBS ! 0, MOCK_JOBS ! 1, MOCK_JOBS ! 3]
     = [MOCK_JOBS ! 2, MOCK_JOBS ! 4, MOCK_JOBS ! 0, MOCK_JOBS ! 1, MOCK_JOBS ! 3]
   \<and> sortedJobs Company Asc (sortedJobs Company Asc MOCK_JOBS)
     = sortedJobs Company Asc MOCK_JOBS"
proof -
  let ?sorted = "[MOCK_JOBS ! 2, MOCK_JOBS ! 4, MOCK_JOBS ! 0, MOCK_JOBS ! 1, MOCK_JOBS ! 3]"
  have h: "alreadySorted Company Asc ?sorted"
    by (simp add: alreadySorted_def MOCK_JOBS_def compareStrings_def compareValues_def
        toLowerCase_def isUpperCase_def)
  from h sortedJobs_stable_idempotent [of Company Asc ?sorted]
  have "sortedJobs Company Asc ?sorted = ?sorted" by blast
  with h sortedJobs_stable_idempotent [of Company Asc MOCK_JOBS] show ?thesis by blast
qed

lemma sortedJobs_missing_last:
  "sortedJobs field dir jobs =
     sortedJobs field dir (filter (\<lambda>j. \<not> missing field j) jobs) @ filter (missing field) jobs"
proof (induction jobs)
  case Nil
  then show ?case by (simp add: sortedJobs_def)
next
  case (Cons x xs)
  let ?ps = "arraySort (compareJobs field dir) (filter (\<lambda>j. \<not> missing field j) xs)"
  let ?ms = "filter (missing field) xs"
  have IH: "arraySort (compareJobs field dir) xs = ?ps @ ?ms"
    using Cons.IH by (simp add: sortedJobs_def)
  have ms: "\<forall>m\<in>set ?ms. \<not> compareJobs field dir m x < 0"
    by (simp add: compareJobs_missing_left)
  show ?case
  proof (cases "missing field x")
    case True
    have "\<forall>p\<in>set ?ps. compareJobs field dir p x < 0"
      using True by (simp add: set_arraySort compareJobs_missing_right)
    then have "insertSorted (compareJobs field dir) x (?ps @ ?ms)
                 = ?ps @ insertSorted (compareJobs field dir) x ?ms"
      by (rule insertSorted_passes)
    moreover from ms have "insertSorted (compareJobs field dir) x ?ms = x # ?ms"
      by (cases ?ms) simp_all
    ultimately show ?thesis using True IH by (simp add: sortedJobs_def)
  next
    case False
    from ms have "insertSorted (compareJobs field dir) x (?ps @ ?ms)
                 = insertSorted (compareJobs field dir) x ?ps @ ?ms"
      by (rule insertSorted_stays)
    then show ?thesis using False IH by (simp add: sortedJobs_def)
  qed
qed











lemma toLowerCase_Nil: "toLowerCase [] = []"
  by (simp add: toLowerCase_def)

lemma Nil_less_toLowerCase: "t \<noteq> [] \<Longrightarrow> [] < toLowerCase t"
  by (cases t) (simp_all add: toLowerCase_def)

text \<open>
  Claim C10. A record whose company (or position) is the empty string is treated as lacking
  the field: the comparator answers 1 for it whatever the other record and the direction
  are, and -1 for a record with a value against it. So of two records the one with the
  empty string comes last in both directions, although the empty string is the smallest
  string; and the output always ends with the records that lack the field.
\<close>

theorem empty_string_sorts_last:
  "(company a = [] \<longrightarrow> compareJobs Company dir a b = 1)
   \<and> (company a \<noteq> [] \<and> company b = [] \<longrightarrow> compareJobs Company dir a b = - 1)
   \<and> (position a = [] \<longrightarrow> compareJobs Position dir a b = 1)
   \<and> (position a \<noteq> [] \<and> position b = [] \<longrightarrow> compareJobs Position dir a b = - 1)
   \<and> ((field = Company \<or> field = Position) \<and> stringOf field a = Some [] \<and> stringOf field b = Some t
        \<and> t \<noteq> [] \<longrightarrow>
        sortedJobs field dir [a, b] = [b, a] \<and> sortedJobs field dir [b, a] = [b, a]
        \<and> compareValues Asc (toLowerCase []) (toLowerCase t) = - 1)
   \<and> drop (length (filter (\<lambda>j. \<not> missing field j) jobs)) (sortedJobs field dir jobs)
       = filter (missing field) jobs"
proof -
  have c: "(company a = [] \<longrightarrow> compareJobs Company dir a b = 1)
   \<and> (company a \<noteq> [] \<and> company b = [] \<longrightarrow> compareJobs Company dir a b = - 1)"
    by (simp add: compareStrings_def)
  have p: "(position a = [] \<longrightarrow> compareJobs Position dir a b = 1)
   \<and> (position a \<noteq> [] \<and> position b = [] \<longrightarrow> compareJobs Position dir a b = - 1)"
    by (simp add: compareStrings_def)
  have two: "(field = Company \<or> field = Position) \<and> stringOf field a = Some [] \<and> stringOf field b = Some t
        \<and> t \<noteq> [] \<longrightarrow>
        sortedJobs field dir [a, b] = [b, a] \<and> sortedJobs field dir [b, a] = [b, a]
        \<and> compareValues Asc (toLowerCase []) (toLowerCase t) = - 1"
    using Nil_less_toLowerCase [of t]
    by (auto simp: sortedJobs_def compareStrings_def compareValues_def toLowerCase_Nil)
  have "length (sortedJobs field dir (filter (\<lambda>j. \<not> missing field j) jobs))
          = length (filter (\<lambda>j. \<not> missing field j) jobs)"
    using mset_arraySort [of "compareJobs field dir" "filter (\<lambda>j. \<not> missing field j) jobs"]
    by (metis sortedJobs_def size_mset)
  then have tail: "drop (length (filter (\<lambda>j. \<not> missing field j) jobs)) (sortedJobs field dir jobs)
       = filter (missing field) jobs"
    using sortedJobs_missing_last [of field dir jobs] by (metis append_eq_conv_conj)
  from c p two tail show ?thesis by blast
qed

theorem empty_string_sorts_last_witness:
  "company ((MOCK_JOBS ! 0)\<lparr>company := []\<rparr>) = []
   \<and> stringOf Company (MOCK_JOBS ! 4) = Some ''Apple''
   \<and> compareJobs Company Asc ((MOCK_JOBS ! 0)\<lparr>company := []\<rparr>) (MOCK_JOBS ! 4) = 1
   \<and> compareJobs Company Desc ((MOCK_JOBS ! 0)\<lparr>company := []\<rparr>) (MOCK_JOBS ! 4) = 1
   \<and> sortedJobs Company Asc [(MOCK_JOBS ! 0)\<lparr>company := []\<rparr>, MOCK_JOBS ! 4]
       = [MOCK_JOBS ! 4, (MOCK_JOBS ! 0)\<lparr>company := []\<rparr>]
   \<and> sortedJobs Company Desc [(MOCK_JOBS ! 0)\<lparr>company := []\<rparr>, MOCK_JOBS ! 4]
       = [MOCK_JOBS ! 4, (MOCK_JOBS ! 0)\<lparr>company := []\<rparr>]"
proof -
  let ?e = "(MOCK_JOBS ! 0)\<lparr>company := []\<rparr>"
  let ?b = "MOCK_JOBS ! 4"
  have h: "company ?e = [] \<and> stringOf Company ?e = Some [] \<and> stringOf Company ?b = Some ''Apple''
           \<and> ''Apple'' \<noteq> []"
    by (simp add: MOCK_JOBS_def)
  from h empty_string_sorts_last [where field = Company and dir = Asc and a = ?e and b = ?b
      and t = "''Apple''"]
    empty_string_sorts_last [where field = Company and dir = Desc and a = ?e and b = ?b
      and t = "''Apple''"]
  show ?thesis by blast
qed

section \<open>Kanban board: properties of the grouping\<close>

lemma emptyGrouped_apply: "emptyGrouped s = Some []"
  by (cases s) (simp_all add: emptyGrouped_def)

lemma set_columns: "set columns = UNIV"
proof -
  have "s \<in> set columns" for s
    by (cases s) (simp_all add: columns_def)
  then show ?thesis by blast
qed

lemma distinct_columns: "distinct columns \<and> length columns = 11"
  by (simp add: columns_def)

lemma forEach_push_buckets:
  "\<forall>s. \<exists>js. grouped s = Some js \<Longrightarrow>
     \<exists>grouped'. forEach_push jobs grouped = Inr grouped'
       \<and> (\<forall>s. grouped' s = Some (bucket grouped s @ filter (\<lambda>job. status job = s) jobs))"
proof (induction jobs arbitrary: grouped)
  case Nil
  have "grouped s = Some (bucket grouped s @ filter (\<lambda>job. status job = s) [])" for s
    using Nil [rule_format, of s] by (auto simp: bucket_def)
  then show ?case unfolding forEach_push.simps by blast
next
  case (Cons job jobs)
  from Cons.prems obtain js where js: "grouped (status job) = Some js" by blast
  let ?g = "grouped(status job \<mapsto> js @ [job])"
  have step: "push job grouped = Inr ?g"
    using js by (simp add: push_def)
  have "\<forall>s. \<exists>js. ?g s = Some js"
    using Cons.prems by simp
  from Cons.IH [OF this] obtain grouped' where
    run: "forEach_push jobs ?g = Inr grouped'" and
    all: "\<forall>s. grouped' s = Some (bucket ?g s @ filter (\<lambda>job. status job = s) jobs)"
    by blast
  have "bucket ?g s @ filter (\<lambda>j. status j = s) jobs
          = bucket grouped s @ filter (\<lambda>j. status j = s) (job # jobs)" for s
    using js by (auto simp: bucket_def)
  with all have "\<forall>s. grouped' s = Some (bucket grouped s @ filter (\<lambda>j. status j = s) (job # jobs))"
    by simp
  with step run show ?case by simp
qed

lemma jobsByStatus_buckets:
  "\<exists>grouped. jobsByStatus jobs = Inr grouped
     \<and> (\<forall>s. grouped s = Some (filter (\<lambda>job. status job = s) jobs))"
proof -
  have "\<forall>s. \<exists>js. emptyGrouped s = Some js"
    by (simp add: emptyGrouped_apply)
  from forEach_push_buckets [OF this, of jobs] obtain grouped where
    run: "forEach_push jobs emptyGrouped = Inr grouped" and
    all: "\<forall>s. grouped s = Some (bucket emptyGrouped s @ filter (\<lambda>job. status job = s) jobs)"
    by blast
  have "bucket emptyGrouped s = []" for s
    by (simp add: bucket_def emptyGrouped_apply)
  with all have "\<forall>s. grouped s = Some (filter (\<lambda>job. status job = s) jobs)"
    by simp
  with run show ?thesis unfolding jobsByStatus_def by blast
qed

text \<open>
  Claim C2. For every list of records the grouping returns (it does not throw), its keys are
  exactly the eleven statuses of \<open>columns\<close>, and the bucket of a status is the input with
  the records of every other status left out: the records of that status, in input order.
\<close>

theorem jobsByStatus_keys_and_order:
  "\<exists>grouped. jobsByStatus jobs = Inr grouped
     \<and> dom grouped = set columns
     \<and> distinct columns \<and> length columns = 11
     \<and> (\<forall>s. grouped s = Some (filter (\<lambda>job. status job = s) jobs))"
proof -
  from jobsByStatus_buckets [of jobs] obtain grouped where
    run: "jobsByStatus jobs = Inr grouped" and
    all: "\<forall>s. grouped s = Some (filter (\<lambda>job. status job = s) jobs)"
    by blast
  from all have "dom grouped = UNIV" by (auto simp: dom_def)
  with run all show ?thesis
    using set_columns distinct_columns by auto
qed

theorem jobsByStatus_keys_and_order_witness:
  "\<exists>grouped. jobsByStatus MOCK_JOBS = Inr grouped
     \<and> dom grouped = set columns
     \<and> grouped INTERVIEWING = Some [MOCK_JOBS ! 0]
     \<and> grouped HIRED = Some []"
proof -
  have "filter (\<lambda>job. status job = INTERVIEWING) MOCK_JOBS = [MOCK_JOBS ! 0]
        \<and> filter (\<lambda>job. status job = HIRED) MOCK_JOBS = []"
    by (simp add: MOCK_JOBS_def)
  with jobsByStatus_keys_and_order [of MOCK_JOBS] show ?thesis by auto
qed





section \<open>Dashboard page: properties of the status change\<close>

lemma menuItems_all: "(job_id job, newStatus) \<in> set (menuItems job)"
  by (cases newStatus) (simp_all add: menuItems_def columns_def)

lemma handleStatusChange_nth:
  "i < length prevJobs \<Longrightarrow>
     handleStatusChange jobId newStatus prevJobs ! i
       = (if job_id (prevJobs ! i) = jobId then changeStatus (prevJobs ! i) newStatus
          else prevJobs ! i)"
  by (simp add: handleStatusChange_def)

text \<open>
  Claim C5. Changing a status never fails and no change is forbidden: the menu of every card
  offers every status, whatever the status of the card. The changed record has the new
  status and the old value of every other field. In the list, the records with the given
  identifier are changed in this way and every other record is left as it is; the list
  keeps its length.
\<close>

theorem changeStatus_total:
  "(job_id job, newStatus) \<in> set (menuItems job)
   \<and> status (changeStatus job newStatus) = newStatus
   \<and> job_id (changeStatus job newStatus) = job_id job
   \<and> company (changeStatus job newStatus) = company job
   \<and> position (changeStatus job newStatus) = position job
   \<and> url (changeStatus job newStatus) = url job
   \<and> salary (changeStatus job newStatus) = salary job
   \<and> note (changeStatus job newStatus) = note job
   \<and> createdAt (changeStatus job newStatus) = createdAt job
   \<and> length (handleStatusChange jobId newStatus prevJobs) = length prevJobs
   \<and> (\<forall>i<length prevJobs.
         handleStatusChange jobId newStatus prevJobs ! i
           = (if job_id (prevJobs ! i) = jobId then changeStatus (prevJobs ! i) newStatus
              else prevJobs ! i))"
proof -
  have fields: "status (changeStatus job newStatus) = newStatus
   \<and> job_id (changeStatus job newStatus) = job_id job
   \<and> company (changeStatus job newStatus) = company job
   \<and> position (changeStatus job newStatus) = position job
   \<and> url (changeStatus job newStatus) = url job
   \<and> salary (changeStatus job newStatus) = salary job
   \<and> note (changeStatus job newStatus) = note job
   \<and> createdAt (changeStatus job newStatus) = createdAt job"
    by (simp add: changeStatus_def)
  have len: "length (handleStatusChange jobId newStatus prevJobs) = length prevJobs"
    by (simp add: handleStatusChange_def)
  from fields len show ?thesis
    using menuItems_all [of job newStatus] handleStatusChange_nth [of _ prevJobs jobId newStatus]
    by blast
qed

theorem changeStatus_total_witness:
  "(1::nat) < length MOCK_JOBS
   \<and> handleStatusChange ''2'' OFFER MOCK_JOBS ! 1 = (MOCK_JOBS ! 1)\<lparr>status := OFFER\<rparr>
   \<and> (0::nat) < length MOCK_JOBS
   \<and> handleStatusChange ''2'' OFFER MOCK_JOBS ! 0 = MOCK_JOBS ! 0"
proof -
  have h: "(1::nat) < length MOCK_JOBS \<and> (0::nat) < length MOCK_JOBS
           \<and> job_id (MOCK_JOBS ! 1) = ''2'' \<and> job_id (MOCK_JOBS ! 0) \<noteq> ''2''"
    by (simp add: MOCK_JOBS_def)
  from changeStatus_total [where jobId = "''2''" and newStatus = OFFER and prevJobs = MOCK_JOBS]
  have "\<forall>i<length MOCK_JOBS.
         handleStatusChange ''2'' OFFER MOCK_JOBS ! i
           = (if job_id (MOCK_JOBS ! i) = ''2'' then changeStatus (MOCK_JOBS ! i) OFFER
              else MOCK_JOBS ! i)"
    by blast
  with h show ?thesis by (simp add: changeStatus_def)
qed

text \<open>
  Claim C9. A status change that names an identifier no record of the list has returns the
  list as it was. For any status change, the identifiers of the list stay as they were, in
  order (no record is removed or added), and every record of the result is a record of the
  input, either untouched or with its status replaced (no record is written in part). The
  page has no other way for a status change to fail.
\<close>

theorem handleStatusChange_unknown_id:
  "(jobId \<notin> set (map job_id prevJobs) \<longrightarrow>
      handleStatusChange jobId newStatus prevJobs = prevJobs)
   \<and> map job_id (handleStatusChange jobId newStatus prevJobs) = map job_id prevJobs
   \<and> (\<forall>job'\<in>set (handleStatusChange jobId newStatus prevJobs).
         \<exists>job\<in>set prevJobs. job' = job \<or> job' = changeStatus job newStatus)"
proof -
  have a: "jobId \<notin> set (map job_id prevJobs) \<longrightarrow>
      handleStatusChange jobId newStatus prevJobs = prevJobs"
    by (induction prevJobs) (auto simp: handleStatusChange_def)
  have b: "map job_id (handleStatusChange jobId newStatus prevJobs) = map job_id prevJobs"
    by (induction prevJobs) (auto simp: handleStatusChange_def changeStatus_def)
  have c: "\<forall>job'\<in>set (handleStatusChange jobId newStatus prevJobs).
         \<exists>job\<in>set prevJobs. job' = job \<or> job' = changeStatus job newStatus"
    by (auto simp: handleStatusChange_def)
  from a b c show ?thesis by blast
qed

theorem handleStatusChange_unknown_id_witness:
  "''99'' \<notin> set (map job_id MOCK_JOBS)
   \<and> handleStatusChange ''99'' HIRED MOCK_JOBS = MOCK_JOBS"
proof -
  have h: "''99'' \<notin> set (map job_id MOCK_JOBS)"
    by (simp add: MOCK_JOBS_def)
  with handleStatusChange_unknown_id [of "''99''" MOCK_JOBS HIRED] show ?thesis by blast
qed

section \<open>Mutation layer: properties\<close>

text \<open>
  Claim C6. \<^verbatim>\<open>createJob\<close> fails with \<open>ValidationError\<close> when the company or the position is the
  empty string. Otherwise it succeeds: the row it returns is added to the store, has status
  \<open>APPLYING\<close>, the creation time as \<open>createdAt\<close>, and the identifier, owner, company and
  position it was given.
\<close>

theorem createJob_validation:
  "(companyName = [] \<or> positionTitle = [] \<longrightarrow>
      createJob newId now store ownerId companyName positionTitle opt = Inl ValidationError)
   \<and> (companyName \<noteq> [] \<and> positionTitle \<noteq> [] \<longrightarrow>
       (\<exists>row. createJob newId now store ownerId companyName positionTitle opt
                 = Inr (row, store @ [row])
          \<and> status row = APPLYING \<and> createdAt row = now
          \<and> job_id row = newId \<and> userId row = ownerId
          \<and> company row = companyName \<and> position row = positionTitle))"
proof -
  have fails: "companyName = [] \<or> positionTitle = [] \<longrightarrow>
      createJob newId now store ownerId companyName positionTitle opt = Inl ValidationError"
    by (simp add: createJob_def)
  have succeeds: "companyName \<noteq> [] \<and> positionTitle \<noteq> [] \<longrightarrow>
       (\<exists>row. createJob newId now store ownerId companyName positionTitle opt
                 = Inr (row, store @ [row])
          \<and> status row = APPLYING \<and> createdAt row = now
          \<and> job_id row = newId \<and> userId row = ownerId
          \<and> company row = companyName \<and> position row = positionTitle)"
    by (simp add: createJob_def Let_def)
  from fails succeeds show ?thesis by blast
qed

theorem createJob_validation_witness:
  "createJob ''7'' 1705276800000 [] ''owner'' '''' ''Engineer''
      \<lparr>opt_url = None, opt_salary = None, opt_jobDescription = None, opt_note = None\<rparr>
     = Inl ValidationError
   \<and> (\<exists>row. createJob ''7'' 1705276800000 [] ''owner'' ''Acme'' ''Engineer''
               \<lparr>opt_url = None, opt_salary = None, opt_jobDescription = None, opt_note = None\<rparr>
               = Inr (row, [row])
        \<and> status row = APPLYING \<and> createdAt row = 1705276800000)"
proof -
  let ?opt = "\<lparr>opt_url = None, opt_salary = None, opt_jobDescription = None, opt_note = None\<rparr>"
  have h: "'''' = ([] :: string) \<and> ''Acme'' \<noteq> [] \<and> ''Engineer'' \<noteq> []" by simp
  from h createJob_validation [of "''''" "''Engineer''" "''7''" 1705276800000 "[]" "''owner''" ?opt]
    createJob_validation [of "''Acme''" "''Engineer''" "''7''" 1705276800000 "[]" "''owner''" ?opt]
  show ?thesis by auto
qed

lemma find_owned_None:
  "\<not> (\<exists>row\<in>set store. ownedRecord recordId requesterId row) \<Longrightarrow>
     find (ownedRecord recordId requesterId) store = None"
  by (simp add: find_None_iff)

lemma find_first_owned:
  "\<exists>row\<in>set store. P row \<Longrightarrow>
     \<exists>pre row post. store = pre @ row # post \<and> \<not> (\<exists>r\<in>set pre. P r) \<and> P row
       \<and> find P store = Some row"
proof (induction store)
  case Nil
  then show ?case by simp
next
  case (Cons x xs)
  show ?case
  proof (cases "P x")
    case True
    then have "x # xs = [] @ x # xs \<and> \<not> (\<exists>r\<in>set []. P r) \<and> P x \<and> find P (x # xs) = Some x"
      by simp
    then show ?thesis by blast
  next
    case False
    with Cons.prems have "\<exists>row\<in>set xs. P row" by simp
    from Cons.IH [OF this] obtain pre row post where
      "xs = pre @ row # post" "\<not> (\<exists>r\<in>set pre. P r)" "P row" "find P xs = Some row"
      by blast
    with False have "x # xs = (x # pre) @ row # post \<and> \<not> (\<exists>r\<in>set (x # pre). P r) \<and> P row
        \<and> find P (x # xs) = Some row"
      by simp
    then show ?thesis by blast
  qed
qed

text \<open>
  Claim C7. \<^verbatim>\<open>updateStatus\<close> fails with \<open>NotFound\<close> when the store has no row with the given
  identifier that the requester owns (a row with that identifier owned by somebody else
  does not count). Otherwise it returns the first such row of the store with its status
  replaced by the new one and every other field as stored, and the store in which the rows
  with that identifier and owner are updated in the same way and every other row is as it
  was.
\<close>

theorem updateStatus_owner:
  "(\<not> (\<exists>row\<in>set store. job_id row = recordId \<and> userId row = requesterId) \<longrightarrow>
      updateStatus recordId newStatus requesterId store = Inl NotFound)
   \<and> ((\<exists>row\<in>set store. job_id row = recordId \<and> userId row = requesterId) \<longrightarrow>
       (\<exists>row' store'. updateStatus recordId newStatus requesterId store = Inr (row', store')
          \<and> status row' = newStatus \<and> job_id row' = recordId \<and> userId row' = requesterId
          \<and> row' \<in> set store' \<and> map job_id store' = map job_id store
          \<and> (\<exists>pre row post. store = pre @ row # post
                \<and> \<not> (\<exists>r\<in>set pre. job_id r = recordId \<and> userId r = requesterId)
                \<and> job_id row = recordId \<and> userId row = requesterId
                \<and> row' = row\<lparr>status := newStatus\<rparr>)
          \<and> store' = map (\<lambda>r. if job_id r = recordId \<and> userId r = requesterId
                               then r\<lparr>status := newStatus\<rparr> else r) store))"
proof -
  have a: "\<not> (\<exists>row\<in>set store. job_id row = recordId \<and> userId row = requesterId) \<longrightarrow>
      updateStatus recordId newStatus requesterId store = Inl NotFound"
    using find_owned_None [of store recordId requesterId]
    by (auto simp: updateStatus_def ownedRecord_def)
  have b: "\<exists>row' store'. updateStatus recordId newStatus requesterId store = Inr (row', store')
          \<and> status row' = newStatus \<and> job_id row' = recordId \<and> userId row' = requesterId
          \<and> row' \<in> set store' \<and> map job_id store' = map job_id store
          \<and> (\<exists>pre row post. store = pre @ row # post
                \<and> \<not> (\<exists>r\<in>set pre. job_id r = recordId \<and> userId r = requesterId)
                \<and> job_id row = recordId \<and> userId row = requesterId
                \<and> row' = row\<lparr>status := newStatus\<rparr>)
          \<and> store' = map (\<lambda>r. if job_id r = recordId \<and> userId r = requesterId
                               then r\<lparr>status := newStatus\<rparr> else r) store"
    if ex: "\<exists>row\<in>set store. job_id row = recordId \<and> userId row = requesterId"
  proof -
    let ?P = "\<lambda>r. job_id r = recordId \<and> userId r = requesterId"
    have P: "ownedRecord recordId requesterId = ?P"
      by (rule ext) (simp add: ownedRecord_def)
    from ex have "\<exists>row\<in>set store. ?P row" .
    from find_first_owned [of store ?P, OF this] obtain pre row post where
      split: "store = pre @ row # post" and
      first: "\<not> (\<exists>r\<in>set pre. ?P r)" and
      owned: "?P row" and
      found: "find ?P store = Some row"
      by blast
    let ?store' = "map (\<lambda>r. if ?P r then r\<lparr>status := newStatus\<rparr> else r) store"
    have run: "updateStatus recordId newStatus requesterId store
                 = Inr (row\<lparr>status := newStatus\<rparr>, ?store')"
      using found by (simp add: updateStatus_def P changeStatus_def)
    have mem: "row\<lparr>status := newStatus\<rparr> \<in> set ?store'"
      using owned by (simp add: split)
    have ids: "map job_id ?store' = map job_id store"
      by (induction store) auto
    have fields: "status (row\<lparr>status := newStatus\<rparr>) = newStatus
        \<and> job_id (row\<lparr>status := newStatus\<rparr>) = recordId
        \<and> userId (row\<lparr>status := newStatus\<rparr>) = requesterId"
      using owned by simp
    from run mem ids fields split first owned show ?thesis by blast
  qed
  from a b show ?thesis by blast
qed

theorem updateStatus_owner_witness:
  "updateStatus ''1'' OFFER ''other'' [storedJob] = Inl NotFound
   \<and> updateStatus ''1'' OFFER ''owner'' [storedJob]
       = Inr (storedJob\<lparr>status := OFFER\<rparr>, [storedJob\<lparr>status := OFFER\<rparr>])"
proof -
  have h: "\<not> (\<exists>row\<in>set [storedJob]. job_id row = ''1'' \<and> userId row = ''other'')
           \<and> (\<exists>row\<in>set [storedJob]. job_id row = ''1'' \<and> userId row = ''owner'')"
    by (simp add: storedJob_def)
  from h updateStatus_owner [of "[storedJob]" "''1''" "''other''" OFFER]
  have 1: "updateStatus ''1'' OFFER ''other'' [storedJob] = Inl NotFound" by blast
  from h updateStatus_owner [of "[storedJob]" "''1''" "''owner''" OFFER]
  obtain row' store' pre row post where
    run: "updateStatus ''1'' OFFER ''owner'' [storedJob] = Inr (row', store')" and
    split: "[storedJob] = pre @ row # post" and
    row': "row' = row\<lparr>status := OFFER\<rparr>" and
    store': "store' = map (\<lambda>r. if job_id r = ''1'' \<and> userId r = ''owner''
                               then r\<lparr>status := OFFER\<rparr> else r) [storedJob]"
    by blast
  from split have "row = storedJob"
    by (cases pre) simp_all
  with run row' store' have "updateStatus ''1'' OFFER ''owner'' [storedJob]
       = Inr (storedJob\<lparr>status := OFFER\<rparr>, [storedJob\<lparr>status := OFFER\<rparr>])"
    by (simp add: storedJob_def)
  with 1 show ?thesis by blast
qed

end
